theory Spec2Isabelle
  imports Complex_Main "HOL-Library.Word"
begin

unbundle bit_operations_syntax

section \<open>JavaScript values and built-ins used by LifecyclePanel.tsx\<close>

text \<open>
  A JavaScript string is modelled by its UTF-8 bytes, one \<open>char\<close> per byte, so that
  \<open>TextEncoder.encode\<close> reads the characters off as bytes. The identities, table addresses
  and secrets of the panel are ASCII (hexadecimal and base-36 text).
\<close>

type_synonym byte = "8 word"

text \<open>What a \<open>catch\<close> clause receives: an \<open>Error\<close> with its message, or any other value.\<close>

datatype js_error = Error string | NonError

definition TextEncoder_encode :: "string \<Rightarrow> byte list" where
  "TextEncoder_encode s = map of_char s"

text \<open>\<open>String.prototype.toLowerCase\<close> on the letters \<open>A\<close> to \<open>Z\<close>; other bytes stay.\<close>

definition toLowerCase_char :: "char \<Rightarrow> char" where
  "toLowerCase_char c =
     (let n = (of_char c :: nat) in if 65 \<le> n \<and> n \<le> 90 then char_of (n + 32) else c)"

definition toLowerCase :: "string \<Rightarrow> string" where
  "toLowerCase s = map toLowerCase_char s"

definition digit_char :: "nat \<Rightarrow> char" where
  "digit_char d = (if d < 16 then ''0123456789abcdef'' ! d else CHR ''?'')"

text \<open>A non-negative integer in a template literal: its decimal digits.\<close>

fun toString10 :: "nat \<Rightarrow> string" where
  "toString10 n = (if n < 10 then [digit_char n] else toString10 (n div 10) @ [digit_char (n mod 10)])"

declare toString10.simps [simp del]

text \<open>\<open>b.toString(16)\<close>.\<close>

fun toString16 :: "nat \<Rightarrow> string" where
  "toString16 n = (if n < 16 then [digit_char n] else toString16 (n div 16) @ [digit_char (n mod 16)])"

declare toString16.simps [simp del]

definition padStart :: "nat \<Rightarrow> char \<Rightarrow> string \<Rightarrow> string" where
  "padStart n c s = replicate (n - length s) c @ s"

text \<open>\<open>a || b\<close> on numbers: \<open>0\<close> is falsy.\<close>

definition or_else :: "nat \<Rightarrow> nat \<Rightarrow> nat" where
  "or_else a b = (if a \<noteq> 0 then a else b)"

text \<open>\<open>xs.indexOf(x)\<close>: the first position of \<open>x\<close>, or \<open>-1\<close>.\<close>

fun indexOf :: "'a list \<Rightarrow> 'a \<Rightarrow> int" where
  "indexOf [] x = - 1"
| "indexOf (y # ys) x =
     (if y = x then 0 else (let r = indexOf ys x in if r < 0 then - 1 else r + 1))"

text \<open>\<open>xs[i] === true\<close> on a boolean array: out of range reads \<open>undefined\<close>.\<close>

definition is_true_at :: "bool list \<Rightarrow> int \<Rightarrow> bool" where
  "is_true_at xs i = (0 \<le> i \<and> nat i < length xs \<and> xs ! nat i)"

text \<open>\<open>xs[i]\<close> on an array of nullable entries: out of range reads \<open>undefined\<close>.\<close>

definition entry_at :: "'a option list \<Rightarrow> nat \<Rightarrow> 'a option" where
  "entry_at xs i = (if i < length xs then xs ! i else None)"

section \<open>The digest primitive\<close>

text \<open>
  The sponge of FIPS 202 that \<open>sha3_256\<close> below instantiates: the Keccak-f[1600]
  permutation on 25 lanes of 64 bits (lane \<open>x + 5 y\<close> of the list is lane \<open>(x, y)\<close>),
  bytes in little-endian order.
\<close>

type_synonym lane = "64 word"

definition keccak_rotation_offsets :: "nat list" where
  "keccak_rotation_offsets =
     [0, 1, 62, 28, 27,
      36, 44, 6, 55, 20,
      3, 10, 43, 25, 39,
      41, 45, 15, 21, 8,
      18, 2, 61, 56, 14]"

definition keccak_round_constants :: "lane list" where
  "keccak_round_constants =
     [0x0000000000000001, 0x0000000000008082, 0x800000000000808A, 0x8000000080008000,
      0x000000000000808B, 0x0000000080000001, 0x8000000080008081, 0x8000000000008009,
      0x000000000000008A, 0x0000000000000088, 0x0000000080008009, 0x000000008000000A,
      0x000000008000808B, 0x800000000000008B, 0x8000000000008089, 0x8000000000008003,
      0x8000000000008002, 0x8000000000000080, 0x000000000000800A, 0x800000008000000A,
      0x8000000080008081, 0x8000000000008080, 0x0000000080000001, 0x8000000080008008]"

definition keccak_theta :: "lane list \<Rightarrow> lane list" where
  "keccak_theta a =
     (let c = (\<lambda>x. a ! x XOR a ! (x + 5) XOR a ! (x + 10) XOR a ! (x + 15) XOR a ! (x + 20));
          d = (\<lambda>x. c ((x + 4) mod 5) XOR word_rotl 1 (c ((x + 1) mod 5)))
      in map (\<lambda>i. a ! i XOR d (i mod 5)) [0..<25])"

definition keccak_rho_pi :: "lane list \<Rightarrow> lane list" where
  "keccak_rho_pi a =
     map (\<lambda>j. let x' = j mod 5; y' = j div 5; x = (x' + 3 * y') mod 5; y = x'
               in word_rotl (keccak_rotation_offsets ! (x + 5 * y)) (a ! (x + 5 * y)))
         [0..<25]"

definition keccak_chi :: "lane list \<Rightarrow> lane list" where
  "keccak_chi b =
     map (\<lambda>j. let x = j mod 5; y = j div 5
               in b ! j XOR (NOT (b ! ((x + 1) mod 5 + 5 * y)) AND b ! ((x + 2) mod 5 + 5 * y)))
         [0..<25]"

definition keccak_iota :: "nat \<Rightarrow> lane list \<Rightarrow> lane list" where
  "keccak_iota r a = a[0 := a ! 0 XOR keccak_round_constants ! r]"

definition keccak_round :: "lane list \<Rightarrow> nat \<Rightarrow> lane list" where
  "keccak_round a r = keccak_iota r (keccak_chi (keccak_rho_pi (keccak_theta a)))"

definition keccak_f1600 :: "lane list \<Rightarrow> lane list" where
  "keccak_f1600 a = foldl keccak_round a [0..<24]"

definition lane_of_bytes :: "byte list \<Rightarrow> lane" where
  "lane_of_bytes bs = foldr (\<lambda>b w. ucast b OR push_bit 8 w) bs 0"

definition bytes_of_lane :: "lane \<Rightarrow> byte list" where
  "bytes_of_lane w = map (\<lambda>k. ucast (drop_bit (8 * k) w)) [0..<8]"

definition sha3_256_pad :: "byte list \<Rightarrow> byte list" where
  "sha3_256_pad m =
     (let q = 136 - length m mod 136
      in if q = 1 then m @ [0x86] else m @ [0x06] @ replicate (q - 2) 0 @ [0x80])"

definition keccak_absorb_block :: "lane list \<Rightarrow> byte list \<Rightarrow> lane list" where
  "keccak_absorb_block a block =
     keccak_f1600
       (map (\<lambda>i. if i < 17 then a ! i XOR lane_of_bytes (take 8 (drop (8 * i) block)) else a ! i)
            [0..<25])"

fun keccak_absorb :: "nat \<Rightarrow> lane list \<Rightarrow> byte list \<Rightarrow> lane list" where
  "keccak_absorb 0 a m = a"
| "keccak_absorb (Suc n) a m = keccak_absorb n (keccak_absorb_block a (take 136 m)) (drop 136 m)"

text \<open>
  Modelled from the spec: \<open>sha3_256\<close> is imported from the package \<open>@noble/hashes/sha3\<close>,
  which is not among the sources; the spec calls it a fixed-size cryptographic digest of
  the 256-bit class, and the source "the SHA3-256 hash as bytes". It is defined here as
  SHA3-256 of FIPS 202: rate 136 bytes, domain padding \<open>0x06 .. 0x80\<close>, 32 bytes of
  output.
\<close>

definition sha3_256 :: "byte list \<Rightarrow> byte list" where
  "sha3_256 m =
     (let p = sha3_256_pad m;
          a = keccak_absorb (length p div 136) (replicate 25 0) p
      in concat (map (\<lambda>i. bytes_of_lane (a ! i)) [0..<4]))"

section \<open>CommitmentCodec and SecretStore\<close>

text \<open>
  \<open>hashSecretToBytes\<close>: \<open>null\<close> for the empty secret, otherwise the digest of its encoding.
\<close>

definition hashSecretToBytes :: "string \<Rightarrow> byte list option" where
  "hashSecretToBytes secret =
     (if secret = [] then None
      else (let data = TextEncoder_encode secret in Some (sha3_256 data)))"

text \<open>
  The browser around the panel: whether \<open>window\<close> is defined, whether touching
  \<open>localStorage\<close> throws (storage disabled), and whether \<open>setItem\<close> throws (quota
  exceeded). These are the cases the \<open>try\<close> blocks of the source are written for.
\<close>

record browser =
  has_window :: bool
  storage_denied :: bool
  quota_exceeded :: bool

type_synonym storage = "string \<rightharpoonup> string"

text \<open>The collaborator's actions, by the names of \<open>useContractActions\<close>.\<close>

datatype contract_call =
    startHand string
  | submitCommit string "byte list"
  | revealSecret string "byte list"
  | leaveTable string
  | leaveAfterHand string
  | cancelLeaveAfterHand string
  | sitOut string
  | sitIn string

text \<open>What the panel did to the outside, oldest first.\<close>

datatype effect = Stored string string | Removed string | Invoked contract_call

datatype action_name = Start | Commit | Reveal | Leave | Sitout

datatype console_entry =
    Warn_fetch_failed js_error
  | Error_action_failed action_name js_error
  | Log_request_cards nat nat

record world =
  localStorage :: storage
  journal :: "effect list"
  console :: "console_entry list"

definition localStorage_getItem :: "browser \<Rightarrow> world \<Rightarrow> string \<Rightarrow> js_error + string option" where
  "localStorage_getItem b w key =
     (if storage_denied b then Inl (Error ''SecurityError'') else Inr (localStorage w key))"

definition localStorage_setItem :: "browser \<Rightarrow> string \<Rightarrow> string \<Rightarrow> world \<Rightarrow> js_error + world" where
  "localStorage_setItem b key v w =
     (if storage_denied b then Inl (Error ''SecurityError'')
      else if quota_exceeded b then Inl (Error ''QuotaExceededError'')
      else Inr (w\<lparr>localStorage := (localStorage w)(key \<mapsto> v), journal := journal w @ [Stored key v]\<rparr>))"

definition localStorage_removeItem :: "browser \<Rightarrow> string \<Rightarrow> world \<Rightarrow> js_error + world" where
  "localStorage_removeItem b key w =
     (if storage_denied b then Inl (Error ''SecurityError'')
      else Inr (w\<lparr>localStorage := (localStorage w)(key := None), journal := journal w @ [Removed key]\<rparr>))"

definition getSecretStorageKey :: "string \<Rightarrow> string option \<Rightarrow> nat \<Rightarrow> string option" where
  "getSecretStorageKey tableAddress playerAddress handNumber =
     (case playerAddress of
        None \<Rightarrow> None
      | Some player \<Rightarrow>
          if tableAddress = [] \<or> player = [] then None
          else Some (toLowerCase (''holdem_secret_'' @ tableAddress @ ''_'' @ player @ ''_''
                                   @ toString10 handNumber)))"

definition loadStoredSecret :: "browser \<Rightarrow> world \<Rightarrow> string \<Rightarrow> string option \<Rightarrow> nat \<Rightarrow> string" where
  "loadStoredSecret b w tableAddress playerAddress handNumber =
     (case getSecretStorageKey tableAddress playerAddress handNumber of
        None \<Rightarrow> []
      | Some key \<Rightarrow>
          if \<not> has_window b then []
          else (case localStorage_getItem b w key of
                  Inl err \<Rightarrow> []
                | Inr None \<Rightarrow> []
                | Inr (Some v) \<Rightarrow> v))"

definition saveSecret :: "browser \<Rightarrow> string \<Rightarrow> string option \<Rightarrow> nat \<Rightarrow> string \<Rightarrow> world \<Rightarrow> world" where
  "saveSecret b tableAddress playerAddress handNumber secret w =
     (case getSecretStorageKey tableAddress playerAddress handNumber of
        None \<Rightarrow> w
      | Some key \<Rightarrow>
          if \<not> has_window b then w
          else (case (if secret \<noteq> [] then localStorage_setItem b key secret w
                      else localStorage_removeItem b key w) of
                  Inl err \<Rightarrow> w
                | Inr w' \<Rightarrow> w'))"

text \<open>
  The randomness of one call of \<open>generateSecret\<close>: what \<open>getRandomValues\<close> writes at each
  index of the 32-byte array (\<open>None\<close> when \<open>window.crypto\<close> is undefined), and the two
  texts \<open>Math.random().toString(36)\<close> of the fallback.
\<close>

record entropy =
  crypto_getRandomValues :: "(nat \<Rightarrow> byte) option"
  math_random_36_first :: string
  math_random_36_second :: string

definition generateSecret :: "browser \<Rightarrow> entropy \<Rightarrow> js_error + string" where
  "generateSecret b rnd =
     (if \<not> has_window b then Inl (Error ''window is not defined'')
      else (case crypto_getRandomValues rnd of
              Some fill \<Rightarrow>
                (let randomBytes = map fill [0..<32]
                 in Inr (concat (map (\<lambda>x. padStart 2 (CHR ''0'') (toString16 (unat x))) randomBytes)))
            | None \<Rightarrow> Inr (drop 2 (math_random_36_first rnd) @ drop 2 (math_random_36_second rnd))))"

text \<open>
  An action handed to \<open>runLifecycleAction\<close>, run up to its first suspension: \<open>Inl\<close> when it
  threw before reaching a collaborator, \<open>Inr ()\<close> when a collaborator call is now awaited.
\<close>

type_synonym action = "world \<Rightarrow> (js_error + unit) \<times> world"

definition invoke :: "contract_call \<Rightarrow> action" where
  "invoke c w = (Inr (), w\<lparr>journal := journal w @ [Invoked c]\<rparr>)"

definition handleRequestCards :: "browser \<Rightarrow> entropy \<Rightarrow> string \<Rightarrow> string option \<Rightarrow> nat \<Rightarrow> action" where
  "handleRequestCards b rnd tableAddress playerAddress handNumber w =
     (case generateSecret b rnd of
        Inl err \<Rightarrow> (Inl err, w)
      | Inr newSecret \<Rightarrow>
          (let w1 = saveSecret b tableAddress playerAddress handNumber newSecret w
           in case hashSecretToBytes newSecret of
                None \<Rightarrow> (Inl (Error ''Failed to generate secret hash''), w1)
              | Some hashBytes \<Rightarrow>
                  invoke (submitCommit tableAddress hashBytes)
                    (w1\<lparr>console := console w1 @ [Log_request_cards handNumber (length newSecret)]\<rparr>)))"

section \<open>The props and state of the LifecyclePanel component\<close>

text \<open>
  Modelled from the spec: \<open>GAME_PHASES\<close> is declared in \<open>config/contracts\<close>, which is not
  among the sources. The spec lists the phases WAITING, COMMIT, REVEAL, the betting rounds
  PREFLOP, FLOP, TURN, RIVER, and SHOWDOWN; \<open>OTHER\<close> is any other value of the feed.
\<close>

datatype game_phase = WAITING | COMMIT | REVEAL | PREFLOP | FLOP | TURN | RIVER | SHOWDOWN | OTHER

text \<open>The fields of \<open>SeatInfo\<close>, \<open>TableState\<close> and \<open>GameState\<close> that the panel reads.\<close>

record seat_info =
  player :: string
  sittingOut :: bool

record table_state =
  tableState_handNumber :: nat
  dealerSeat :: nat

record action_on =
  seatIndex :: nat
  actionOn_playerAddress :: "string option"

record game_state =
  phase :: game_phase
  actionOn :: "action_on option"

record props =
  tableAddress :: string
  gameState :: game_state
  seats :: "seat_info option list"
  playerSeat :: "nat option"
  tableState :: "table_state option"
  pendingLeave :: bool
  isAdmin :: bool
  isAdminOnlyStart :: bool
  isPaused :: bool

datatype status_text = Accepting_your_cards | Success_refreshing | Warning string

text \<open>
  The component instance between two events: the props of its last render, its
  \<open>useState\<close> cells, the \<open>useRef\<close> marker, the cache of the \<open>storedSecret\<close> memo (its
  dependencies and value), the dependencies of the last run of the auto-reveal effect,
  the pending \<open>setTimeout\<close> of that effect (the table address and secret its callback
  closes over), and the world outside.
\<close>

record panel =
  props :: props
  status :: "status_text option"
  activeAction :: "action_name option"
  commitStatus :: "bool list"
  revealStatus :: "bool list"
  playersInHand :: "nat list"
  autoRevealTriggeredRef :: nat
  storedSecret_memo :: "((string \<times> string option \<times> nat) \<times> string) option"
  autoReveal_deps :: "(game_phase \<times> string \<times> int \<times> bool \<times> nat) option"
  autoReveal_timeout :: "(string \<times> string) option"
  world :: world

definition playerAddress :: "panel \<Rightarrow> string option" where
  "playerAddress s =
     (case playerSeat (props s) of
        None \<Rightarrow> None
      | Some i \<Rightarrow> (case entry_at (seats (props s)) i of None \<Rightarrow> None | Some seat \<Rightarrow> Some (player seat)))"

definition handNumber :: "panel \<Rightarrow> nat" where
  "handNumber s = (case tableState (props s) of None \<Rightarrow> 0 | Some t \<Rightarrow> tableState_handNumber t)"

definition storedSecret :: "panel \<Rightarrow> string" where
  "storedSecret s = (case storedSecret_memo s of None \<Rightarrow> [] | Some (deps, v) \<Rightarrow> v)"

definition playerHandIdx :: "panel \<Rightarrow> int" where
  "playerHandIdx s =
     (case playerSeat (props s) of None \<Rightarrow> - 1 | Some i \<Rightarrow> indexOf (playersInHand s) i)"

definition hasCommitted :: "panel \<Rightarrow> bool" where
  "hasCommitted s = (playerHandIdx s \<ge> 0 \<and> is_true_at (commitStatus s) (playerHandIdx s))"

definition hasRevealed :: "panel \<Rightarrow> bool" where
  "hasRevealed s = (playerHandIdx s \<ge> 0 \<and> is_true_at (revealStatus s) (playerHandIdx s))"

definition isActionOnPlayer :: "panel \<Rightarrow> bool" where
  "isActionOnPlayer s =
     (case (playerSeat (props s), playerAddress s, actionOn (gameState (props s))) of
        (Some seat, Some addr, Some on) \<Rightarrow>
          if addr = [] then False
          else seatIndex on = seat \<and>
               (case actionOn_playerAddress on of
                  None \<Rightarrow> False
                | Some a \<Rightarrow> toLowerCase a = toLowerCase addr)
      | _ \<Rightarrow> False)"

definition activeSeats :: "panel \<Rightarrow> nat" where
  "activeSeats s =
     length (filter (\<lambda>x. case x of None \<Rightarrow> False | Some seat \<Rightarrow> \<not> sittingOut seat) (seats (props s)))"

definition isSeatedPlayer :: "panel \<Rightarrow> bool" where
  "isSeatedPlayer s =
     (case playerSeat (props s) of None \<Rightarrow> False | Some i \<Rightarrow> entry_at (seats (props s)) i \<noteq> None)"

definition playerSittingOut :: "panel \<Rightarrow> bool" where
  "playerSittingOut s =
     (case playerSeat (props s) of
        None \<Rightarrow> False
      | Some i \<Rightarrow> (case entry_at (seats (props s)) i of None \<Rightarrow> False | Some seat \<Rightarrow> sittingOut seat))"

definition isActivePlayer :: "panel \<Rightarrow> bool" where
  "isActivePlayer s = (isSeatedPlayer s \<and> \<not> playerSittingOut s)"

definition canStartHand :: "panel \<Rightarrow> bool" where
  "canStartHand s =
     (if isAdminOnlyStart (props s) then isAdmin (props s)
      else (isActionOnPlayer s \<or> isAdmin (props s)))"

definition startDisabled :: "panel \<Rightarrow> bool" where
  "startDisabled s =
     (phase (gameState (props s)) \<noteq> WAITING \<or>
      isPaused (props s) \<or>
      activeSeats s < 2 \<or>
      \<not> canStartHand s \<or>
      activeAction s \<noteq> None)"

definition requestCardsDisabled :: "panel \<Rightarrow> bool" where
  "requestCardsDisabled s =
     (phase (gameState (props s)) \<noteq> COMMIT \<or>
      \<not> isActivePlayer s \<or>
      hasCommitted s \<or>
      activeAction s \<noteq> None)"

definition committedCount :: "panel \<Rightarrow> nat" where
  "committedCount s = length (filter (\<lambda>x. x) (commitStatus s))"

definition revealedCount :: "panel \<Rightarrow> nat" where
  "revealedCount s = length (filter (\<lambda>x. x) (revealStatus s))"

definition totalPlayers :: "panel \<Rightarrow> nat" where
  "totalPlayers s = or_else (length (playersInHand s)) (or_else (committedCount s) 1)"

text \<open>
  The width of the progress bar in percent: \<open>count / totalPlayers * 100\<close>, where a zero
  divisor would give \<open>NaN\<close> or \<open>Infinity\<close> (\<open>None\<close> here).
\<close>

definition progress_percent :: "panel \<Rightarrow> rat option" where
  "progress_percent s =
     (let n = (if phase (gameState (props s)) = COMMIT then committedCount s else revealedCount s)
      in if totalPlayers s = 0 then None
         else Some (of_nat n / of_nat (totalPlayers s) * 100))"

text \<open>What the "Accept Cards" card shows; the card is rendered in the REVEAL phase only.\<close>

datatype accept_cards_card =
    Confirmed_waiting_for_others
  | Accepting_cards_sign_transaction
  | Preparing_to_accept
  | Secret_not_found

definition acceptCardsCard :: "panel \<Rightarrow> accept_cards_card option" where
  "acceptCardsCard s =
     (if phase (gameState (props s)) = REVEAL then
        Some (if hasRevealed s then Confirmed_waiting_for_others
              else if activeAction s = Some Reveal then Accepting_cards_sign_transaction
              else if storedSecret s \<noteq> [] then Preparing_to_accept
              else Secret_not_found)
      else None)"

section \<open>Polling, actions and the auto-reveal effect\<close>

text \<open>
  \<open>Promise.all\<close> of the three queries: the triple of their values, or the rejection of one
  that failed.
\<close>

definition Promise_all3 :: "js_error + 'a \<Rightarrow> js_error + 'b \<Rightarrow> js_error + 'c \<Rightarrow> js_error + 'a \<times> 'b \<times> 'c" where
  "Promise_all3 x y z =
     (case x of
        Inl e \<Rightarrow> Inl e
      | Inr a \<Rightarrow> (case y of
                   Inl e \<Rightarrow> Inl e
                 | Inr b \<Rightarrow> (case z of Inl e \<Rightarrow> Inl e | Inr c \<Rightarrow> Inr (a, b, c))))"

text \<open>
  \<open>fetchStatus\<close>, given how the three queries settled. \<open>Inl\<close> would be an exception leaving
  the function.
\<close>

definition fetchStatus ::
  "js_error + bool list \<Rightarrow> js_error + bool list \<Rightarrow> js_error + nat list \<Rightarrow> panel \<Rightarrow> js_error + panel" where
  "fetchStatus getCommitStatus getRevealStatus getPlayersInHand s =
     (case Promise_all3 getCommitStatus getRevealStatus getPlayersInHand of
        Inr (commits, reveals, players) \<Rightarrow>
          Inr (s\<lparr>commitStatus := commits, revealStatus := reveals, playersInHand := players\<rparr>)
      | Inl err \<Rightarrow>
          Inr (s\<lparr>world := (world s)\<lparr>console := console (world s) @ [Warn_fetch_failed err]\<rparr>\<rparr>))"

definition error_message :: "js_error \<Rightarrow> string" where
  "error_message err = (case err of Error m \<Rightarrow> m | NonError \<Rightarrow> ''Action failed.'')"

text \<open>The \<open>catch\<close> and \<open>finally\<close> blocks of \<open>runLifecycleAction\<close>.\<close>

definition runLifecycleAction_catch :: "action_name \<Rightarrow> js_error \<Rightarrow> panel \<Rightarrow> panel" where
  "runLifecycleAction_catch actionName err s =
     s\<lparr>world := (world s)\<lparr>console := console (world s) @ [Error_action_failed actionName err]\<rparr>,
       status := Some (Warning (error_message err)),
       activeAction := None\<rparr>"

text \<open>
  \<open>runLifecycleAction\<close> up to \<open>await action()\<close>: the slot is written, the status cleared and
  the action called. An action that threw at once is caught at once.
\<close>

definition runLifecycleAction :: "action \<Rightarrow> action_name \<Rightarrow> panel \<Rightarrow> panel" where
  "runLifecycleAction act actionName s =
     (let s1 = s\<lparr>activeAction := Some actionName, status := None\<rparr>;
          (r, w) = act (world s1);
          s2 = s1\<lparr>world := w\<rparr>
      in case r of
           Inl err \<Rightarrow> runLifecycleAction_catch actionName err s2
         | Inr u \<Rightarrow> s2)"

text \<open>
  \<open>runLifecycleAction\<close> after the awaited call settled: \<open>result\<close> is how the collaborator
  call ended and \<open>refreshed\<close> how \<open>onRefresh\<close> ended, were it called.
\<close>

definition runLifecycleAction_resume ::
  "action_name \<Rightarrow> js_error + unit \<Rightarrow> js_error + unit \<Rightarrow> panel \<Rightarrow> panel" where
  "runLifecycleAction_resume actionName result refreshed s =
     (case result of
        Inl err \<Rightarrow> runLifecycleAction_catch actionName err s
      | Inr u \<Rightarrow>
          (let s1 = s\<lparr>status := Some Success_refreshing\<rparr>
           in case refreshed of
                Inl err \<Rightarrow> runLifecycleAction_catch actionName err s1
              | Inr u' \<Rightarrow> s1\<lparr>activeAction := None\<rparr>))"

text \<open>The \<open>useMemo\<close> of \<open>storedSecret\<close>: read again only when a dependency changed.\<close>

definition useMemo_storedSecret :: "browser \<Rightarrow> panel \<Rightarrow> panel" where
  "useMemo_storedSecret b s =
     (let deps = (tableAddress (props s), playerAddress s, handNumber s)
      in case storedSecret_memo s of
           Some (deps', v) \<Rightarrow>
             if deps' = deps then s
             else s\<lparr>storedSecret_memo :=
                      Some (deps, loadStoredSecret b (world s) (tableAddress (props s)) (playerAddress s) (handNumber s))\<rparr>
         | None \<Rightarrow>
             s\<lparr>storedSecret_memo :=
                 Some (deps, loadStoredSecret b (world s) (tableAddress (props s)) (playerAddress s) (handNumber s))\<rparr>)"

text \<open>The condition of the auto-reveal effect.\<close>

definition autoReveal_condition :: "panel \<Rightarrow> bool" where
  "autoReveal_condition s =
     (phase (gameState (props s)) = REVEAL \<and>
      storedSecret s \<noteq> [] \<and>
      playerHandIdx s \<ge> 0 \<and>
      \<not> hasRevealed s \<and>
      activeAction s = None \<and>
      autoRevealTriggeredRef s \<noteq> handNumber s)"

text \<open>
  The auto-reveal \<open>useEffect\<close> after a render: nothing when its dependencies are those of
  its last run; otherwise the clean-up of the last run (\<open>clearTimeout\<close>) and the body.
\<close>

definition autoReveal_effect :: "panel \<Rightarrow> panel" where
  "autoReveal_effect s =
     (let deps = (phase (gameState (props s)), storedSecret s, playerHandIdx s, hasRevealed s, handNumber s)
      in if autoReveal_deps s = Some deps then s
         else (let s1 = s\<lparr>autoReveal_timeout := None, autoReveal_deps := Some deps\<rparr>
               in if autoReveal_condition s1
                  then s1\<lparr>autoRevealTriggeredRef := handNumber s1,
                          autoReveal_timeout := Some (tableAddress (props s1), storedSecret s1)\<rparr>
                  else s1))"

text \<open>One render of the component followed by its effects.\<close>

definition render :: "browser \<Rightarrow> panel \<Rightarrow> panel" where
  "render b s = autoReveal_effect (useMemo_storedSecret b s)"

text \<open>The callback of the 500 ms \<open>setTimeout\<close>, when it is still pending.\<close>

definition timeout_callback :: "panel \<Rightarrow> panel" where
  "timeout_callback s =
     (case autoReveal_timeout s of
        None \<Rightarrow> s
      | Some (table, secret) \<Rightarrow>
          (let s1 = s\<lparr>autoReveal_timeout := None, status := Some Accepting_your_cards\<rparr>;
               secretBytes = TextEncoder_encode secret
           in runLifecycleAction (invoke (revealSecret table secretBytes)) Reveal s1))"

text \<open>
  The buttons. A button that is not rendered or is \<open>disabled\<close> does not call its
  \<open>onClick\<close>.
\<close>

definition click_startHand :: "panel \<Rightarrow> panel" where
  "click_startHand s =
     (if phase (gameState (props s)) = WAITING \<and> \<not> startDisabled s
      then runLifecycleAction (invoke (startHand (tableAddress (props s)))) Start s
      else s)"

definition click_requestCards :: "browser \<Rightarrow> entropy \<Rightarrow> panel \<Rightarrow> panel" where
  "click_requestCards b rnd s =
     (if phase (gameState (props s)) = COMMIT \<and> \<not> hasCommitted s \<and> \<not> requestCardsDisabled s
      then runLifecycleAction
             (handleRequestCards b rnd (tableAddress (props s)) (playerAddress s) (handNumber s)) Commit s
      else s)"

definition click_sitToggle :: "panel \<Rightarrow> panel" where
  "click_sitToggle s =
     (if isSeatedPlayer s \<and> activeAction s = None
      then runLifecycleAction
             (if playerSittingOut s then invoke (sitIn (tableAddress (props s)))
              else invoke (sitOut (tableAddress (props s)))) Sitout s
      else s)"

definition click_leaveTable :: "panel \<Rightarrow> panel" where
  "click_leaveTable s =
     (if isSeatedPlayer s \<and> phase (gameState (props s)) = WAITING \<and> activeAction s = None
      then runLifecycleAction (invoke (leaveTable (tableAddress (props s)))) Leave s
      else s)"

definition click_leaveAfterHand :: "panel \<Rightarrow> panel" where
  "click_leaveAfterHand s =
     (if isSeatedPlayer s \<and> phase (gameState (props s)) \<noteq> WAITING \<and> activeAction s = None
      then runLifecycleAction
             (if pendingLeave (props s) then invoke (cancelLeaveAfterHand (tableAddress (props s)))
              else invoke (leaveAfterHand (tableAddress (props s)))) Leave s
      else s)"

text \<open>
  What can happen to a mounted panel: the parent renders it with new props, a poll
  settles, the debounce elapses, an awaited action settles, the player clicks a button.
  Every event ends in a render, since it writes props or state.
\<close>

datatype event =
    Props props
  | Poll_settled "js_error + bool list" "js_error + bool list" "js_error + nat list"
  | Timeout_elapsed
  | Action_settled action_name "js_error + unit" "js_error + unit"
  | Click_startHand
  | Click_requestCards entropy
  | Click_sitToggle
  | Click_leaveTable
  | Click_leaveAfterHand

fun handle :: "browser \<Rightarrow> event \<Rightarrow> panel \<Rightarrow> panel" where
  "handle b (Props p) s = s\<lparr>props := p\<rparr>"
| "handle b (Poll_settled c r p) s = (case fetchStatus c r p s of Inl err \<Rightarrow> s | Inr s' \<Rightarrow> s')"
| "handle b Timeout_elapsed s = timeout_callback s"
| "handle b (Action_settled n result refreshed) s = runLifecycleAction_resume n result refreshed s"
| "handle b Click_startHand s = click_startHand s"
| "handle b (Click_requestCards rnd) s = click_requestCards b rnd s"
| "handle b Click_sitToggle s = click_sitToggle s"
| "handle b Click_leaveTable s = click_leaveTable s"
| "handle b Click_leaveAfterHand s = click_leaveAfterHand s"

definition step :: "browser \<Rightarrow> panel \<Rightarrow> event \<Rightarrow> panel" where
  "step b s e = render b (handle b e s)"

fun run :: "browser \<Rightarrow> panel \<Rightarrow> event list \<Rightarrow> panel" where
  "run b s [] = s"
| "run b s (e # es) = run b (step b s e) es"

text \<open>
  A freshly mounted panel in a given world: the initial values of its \<open>useState\<close> and
  \<open>useRef\<close> cells, then its first render.
\<close>

definition unmounted :: "props \<Rightarrow> world \<Rightarrow> panel" where
  "unmounted p w =
     \<lparr>props = p, status = None, activeAction = None,
      commitStatus = [], revealStatus = [], playersInHand = [],
      autoRevealTriggeredRef = 0, storedSecret_memo = None,
      autoReveal_deps = None, autoReveal_timeout = None, world = w\<rparr>"

definition mount :: "browser \<Rightarrow> props \<Rightarrow> world \<Rightarrow> panel" where
  "mount b p w = render b (unmounted p w)"

text \<open>How often the collaborator's reveal action has been invoked.\<close>

definition is_reveal :: "effect \<Rightarrow> bool" where
  "is_reveal x = (case x of Invoked (revealSecret t bs) \<Rightarrow> True | _ \<Rightarrow> False)"

definition reveal_count :: "panel \<Rightarrow> nat" where
  "reveal_count s = length (filter is_reveal (journal (world s)))"

text \<open>The hand number an event renders with: that of its props, or the one in place.\<close>

definition props_handNumber :: "props \<Rightarrow> nat" where
  "props_handNumber p = (case tableState p of None \<Rightarrow> 0 | Some t \<Rightarrow> tableState_handNumber t)"

fun keeps_hand :: "nat \<Rightarrow> event \<Rightarrow> bool" where
  "keeps_hand h (Props p) = (props_handNumber p = h)"
| "keeps_hand h e = True"

section \<open>Predicates of the statements and proofs\<close>

fun is_click :: "event \<Rightarrow> bool" where
  "is_click Click_startHand = True"
| "is_click (Click_requestCards rnd) = True"
| "is_click Click_sitToggle = True"
| "is_click Click_leaveTable = True"
| "is_click Click_leaveAfterHand = True"
| "is_click e = False"

text \<open>No secret is stored under the key of the panel's table, player and hand.\<close>

definition secret_absent :: "browser \<Rightarrow> panel \<Rightarrow> bool" where
  "secret_absent b s =
     (loadStoredSecret b (world s) (tableAddress (props s)) (playerAddress s) (handNumber s) = [])"

text \<open>
  The panel holds no secret for its key (\<open>storedSecret\<close> is empty) in the state before
  each event of a run, and in the state after the last.
\<close>

fun secret_missing_during :: "browser \<Rightarrow> panel \<Rightarrow> event list \<Rightarrow> bool" where
  "secret_missing_during b s [] = (storedSecret s = [])"
| "secret_missing_during b s (e # es) = (storedSecret s = [] \<and> secret_missing_during b (step b s e) es)"

definition pending :: "panel \<Rightarrow> nat" where
  "pending s = (if autoReveal_timeout s = None then 0 else 1)"

definition unmarked :: "nat \<Rightarrow> panel \<Rightarrow> nat" where
  "unmarked h s = (if autoRevealTriggeredRef s = h then 0 else 1)"

text \<open>After a render, the recorded dependencies of the effect are the current ones.\<close>

definition settled :: "panel \<Rightarrow> bool" where
  "settled s =
     (autoReveal_deps s =
        Some (phase (gameState (props s)), storedSecret s, playerHandIdx s, hasRevealed s, handNumber s))"

definition timer_marked :: "panel \<Rightarrow> bool" where
  "timer_marked s = (autoReveal_timeout s = None \<or> autoRevealTriggeredRef s = handNumber s)"

definition quiet :: "nat \<Rightarrow> panel \<Rightarrow> bool" where
  "quiet h s = (autoRevealTriggeredRef s = h \<and> autoReveal_timeout s = None \<and> handNumber s = h)"

text \<open>A pending timeout closes over a secret: it is armed only with one in hand.\<close>

definition timer_has_secret :: "panel \<Rightarrow> bool" where
  "timer_has_secret s = (autoReveal_timeout s = None \<or> storedSecret s \<noteq> [])"

section \<open>Example inputs\<close>

definition demo_browser :: browser where
  "demo_browser = \<lparr>has_window = True, storage_denied = False, quota_exceeded = False\<rparr>"

definition demo_props :: "game_phase \<Rightarrow> nat \<Rightarrow> props" where
  "demo_props ph h =
     \<lparr>tableAddress = ''0xTab1e'',
      gameState = \<lparr>phase = ph, actionOn = None\<rparr>,
      seats = [None, None, Some \<lparr>player = ''0xAbC'', sittingOut = False\<rparr>],
      playerSeat = Some 2,
      tableState = Some \<lparr>tableState_handNumber = h, dealerSeat = 0\<rparr>,
      pendingLeave = False, isAdmin = False, isAdminOnlyStart = False, isPaused = False\<rparr>"

definition demo_world :: "storage \<Rightarrow> world" where
  "demo_world st = \<lparr>localStorage = st, journal = [], console = []\<rparr>"

definition demo_entropy :: entropy where
  "demo_entropy =
     \<lparr>crypto_getRandomValues = None,
      math_random_36_first = ''0.k3x9'', math_random_36_second = ''0.q7m2''\<rparr>"

definition demo_key :: string where
  "demo_key = ''holdem_secret_0xtab1e_0xabc_7''"

definition demo_key0 :: string where
  "demo_key0 = ''holdem_secret_0xtab1e_0xabc_0''"

definition demo_key6 :: string where
  "demo_key6 = ''holdem_secret_0xtab1e_0xabc_6''"

lemma demo_getSecretStorageKey:
  "getSecretStorageKey ''0xTab1e'' (Some ''0xAbC'') 7 = Some demo_key"
  unfolding demo_key_def by code_simp

lemma demo_getSecretStorageKey0:
  "getSecretStorageKey ''0xTab1e'' (Some ''0xAbC'') 0 = Some demo_key0"
  unfolding demo_key0_def by code_simp

lemma demo_getSecretStorageKey6:
  "getSecretStorageKey ''0xTab1e'' (Some ''0xAbC'') 6 = Some demo_key6"
  unfolding demo_key6_def by code_simp

lemma demo_casing: "toLowerCase ''0XABC'' = toLowerCase ''0xAbC''"
  by code_simp

lemma demo_generateSecret: "generateSecret demo_browser demo_entropy = Inr ''k3x9q7m2''"
  by (simp add: generateSecret_def demo_browser_def demo_entropy_def)

lemmas demo_defs = demo_browser_def demo_props_def demo_world_def unmounted_def

lemmas panel_defs =
  mount_def render_def useMemo_storedSecret_def autoReveal_effect_def autoReveal_condition_def
  step_def playerAddress_def handNumber_def storedSecret_def playerHandIdx_def hasRevealed_def
  hasCommitted_def is_true_at_def entry_at_def loadStoredSecret_def localStorage_getItem_def
  fetchStatus_def Promise_all3_def timeout_callback_def runLifecycleAction_def
  runLifecycleAction_catch_def runLifecycleAction_resume_def invoke_def
  click_sitToggle_def isSeatedPlayer_def playerSittingOut_def reveal_count_def is_reveal_def
  Let_def

lemmas request_defs =
  handleRequestCards_def generateSecret_def hashSecretToBytes_def saveSecret_def invoke_def
  localStorage_setItem_def localStorage_removeItem_def localStorage_getItem_def
  loadStoredSecret_def demo_browser_def demo_entropy_def demo_world_def Let_def

lemmas click_defs =
  click_startHand_def click_requestCards_def click_leaveTable_def click_leaveAfterHand_def
  startDisabled_def requestCardsDisabled_def

section \<open>The digest and the commitment codec\<close>

lemma length_sha3_256: "length (sha3_256 m) = 32"
  by (simp add: sha3_256_def Let_def bytes_of_lane_def length_concat comp_def sum_list_triv)

text \<open>
  C7, as the spec states it: for every secret string, \<open>commit\<close> is the SHA3-256 digest of
  its UTF-8 encoding. The empty secret refutes it: \<open>hashSecretToBytes\<close> returns \<open>null\<close>
  there, not the digest of the empty byte string.
\<close>

theorem hashSecretToBytes_empty_counterexample:
  "hashSecretToBytes [] \<noteq> Some (sha3_256 (TextEncoder_encode []))"
  by (simp add: hashSecretToBytes_def)

text \<open>
  C7, amended: for every non-empty secret string, \<open>hashSecretToBytes\<close> returns the SHA3-256
  digest of the UTF-8 bytes of the secret's own text (one byte per character here, no
  further derivation), which is 32 bytes long; being a function of the secret alone, it
  returns the same bytes at every call.
\<close>

theorem hashSecretToBytes_digest:
  assumes "secret \<noteq> []"
  shows "hashSecretToBytes secret = Some (sha3_256 (TextEncoder_encode secret))
         \<and> length (TextEncoder_encode secret) = length secret
         \<and> (\<exists>d. hashSecretToBytes secret = Some d \<and> length d = 32)"
  using assms by (simp add: hashSecretToBytes_def TextEncoder_encode_def length_sha3_256)

theorem hashSecretToBytes_digest_witness:
  "''a1'' \<noteq> [] \<and> hashSecretToBytes ''a1'' = Some (sha3_256 [0x61, 0x31])
   \<and> (\<exists>d. hashSecretToBytes ''a1'' = Some d \<and> length d = 32)"
  using hashSecretToBytes_digest [of "''a1''"] by (auto simp add: TextEncoder_encode_def)

section \<open>The secret store and the request for cards\<close>

lemma toLowerCase_Nil_iff: "toLowerCase xs = toLowerCase ys \<Longrightarrow> (xs = []) = (ys = [])"
  by (metis length_0_conv length_map toLowerCase_def)

lemma getSecretStorageKey_casing:
  assumes "toLowerCase pl' = toLowerCase pl"
  shows "getSecretStorageKey t (Some pl') h = getSecretStorageKey t (Some pl) h"
  using assms toLowerCase_Nil_iff [OF assms]
  by (simp add: getSecretStorageKey_def toLowerCase_def)

lemma length_toString16_byte:
  assumes "n < 256"
  shows "length (toString16 n) \<le> 2"
proof -
  from assms have "n div 16 < 16" by simp
  then show ?thesis
    by (simp add: toString16.simps [of n] toString16.simps [of "n div 16"])
qed

lemma length_toString16_pos: "0 < length (toString16 n)"
  by (simp add: toString16.simps [of n])

lemma length_hex_byte: "length (padStart 2 (CHR ''0'') (toString16 (unat (x :: byte)))) = 2"
proof -
  have "unat x < 2 ^ LENGTH(8)" by (rule unsigned_less)
  then have "unat x < 256" by simp
  from length_toString16_byte [OF this] length_toString16_pos [of "unat x"] show ?thesis
    by (simp add: padStart_def)
qed

text \<open>With \<open>window.crypto\<close>, the generated secret is 64 hexadecimal characters.\<close>

lemma generateSecret_crypto:
  assumes "has_window b" and "crypto_getRandomValues rnd = Some fill"
  shows "\<exists>S. generateSecret b rnd = Inr S \<and> length S = 64"
  using assms
  by (simp add: generateSecret_def Let_def length_concat comp_def length_hex_byte sum_list_triv)

lemma generateSecret_Inr_window: "generateSecret b rnd = Inr S \<Longrightarrow> has_window b"
  by (auto simp add: generateSecret_def split: if_splits)

lemma handleRequestCards_unfold:
  assumes "generateSecret b rnd = Inr S" and "S \<noteq> []"
  shows "handleRequestCards b rnd t p h w =
           invoke (submitCommit t (sha3_256 (TextEncoder_encode S)))
             ((saveSecret b t p h S w)\<lparr>console := console (saveSecret b t p h S w) @ [Log_request_cards h (length S)]\<rparr>)"
  using assms by (simp add: handleRequestCards_def hashSecretToBytes_def Let_def)

text \<open>
  C1: whenever a run of request-cards for table \<open>t\<close>, player \<open>pl\<close> and hand \<open>h\<close> wrote a
  secret \<open>S\<close> to the store (the write succeeded) and then submitted the commitment \<open>C\<close>,
  loading the secret for the same table and hand, with the player identity in any letter
  casing, returns \<open>S\<close>, and the commitment recomputed from the loaded secret is \<open>C\<close>.
\<close>

theorem request_cards_round_trip:
  assumes "handleRequestCards b rnd t (Some pl) h w = (r, w')"
      and "journal w' = journal w @ [Stored k S, Invoked (submitCommit t C)]"
      and "toLowerCase pl' = toLowerCase pl"
  shows "loadStoredSecret b w' t (Some pl') h = S
         \<and> hashSecretToBytes (loadStoredSecret b w' t (Some pl') h) = Some C"
  using assms(1,2)
  unfolding getSecretStorageKey_casing [OF assms(3)] loadStoredSecret_def handleRequestCards_def
  by (auto simp add: Let_def invoke_def saveSecret_def localStorage_setItem_def
        localStorage_removeItem_def localStorage_getItem_def
        split: sum.splits option.splits if_splits)

theorem request_cards_round_trip_witness:
  "loadStoredSecret demo_browser
     (snd (handleRequestCards demo_browser demo_entropy ''0xTab1e'' (Some ''0xAbC'') 7 (demo_world Map.empty)))
     ''0xTab1e'' (Some ''0XABC'') 7 = ''k3x9q7m2''
   \<and> hashSecretToBytes ''k3x9q7m2'' = Some (sha3_256 (TextEncoder_encode ''k3x9q7m2''))"
proof -
  let ?run = "handleRequestCards demo_browser demo_entropy ''0xTab1e'' (Some ''0xAbC'') 7 (demo_world Map.empty)"
  have ran: "?run = (fst ?run, snd ?run)" by simp
  have wrote: "journal (snd ?run) = journal (demo_world Map.empty) @
                 [Stored demo_key ''k3x9q7m2'',
                  Invoked (submitCommit ''0xTab1e'' (sha3_256 (TextEncoder_encode ''k3x9q7m2'')))]"
    by (simp add: request_defs demo_getSecretStorageKey)
  from request_cards_round_trip [OF ran wrote demo_casing] show ?thesis by auto
qed

text \<open>
  C3, as the spec states it: whenever the request-cards action runs, it replaces any prior
  stored value for the key and persists the new secret before it invokes the commit
  action. A browser whose \<open>localStorage.setItem\<close> throws refutes it: the action runs to
  its end and invokes the commit action with the digest of the new secret, yet nothing
  was written, and the store still holds the prior secret.
\<close>

theorem handleRequestCards_storage_counterexample:
  "fst (handleRequestCards (demo_browser\<lparr>quota_exceeded := True\<rparr>) demo_entropy ''0xTab1e''
          (Some ''0xAbC'') 7 (demo_world [demo_key \<mapsto> ''0ld53cr3t''])) = Inr ()
   \<and> journal (snd (handleRequestCards (demo_browser\<lparr>quota_exceeded := True\<rparr>) demo_entropy ''0xTab1e''
          (Some ''0xAbC'') 7 (demo_world [demo_key \<mapsto> ''0ld53cr3t''])))
       = [Invoked (submitCommit ''0xTab1e'' (sha3_256 (TextEncoder_encode ''k3x9q7m2'')))]
   \<and> loadStoredSecret (demo_browser\<lparr>quota_exceeded := True\<rparr>)
         (snd (handleRequestCards (demo_browser\<lparr>quota_exceeded := True\<rparr>) demo_entropy ''0xTab1e''
          (Some ''0xAbC'') 7 (demo_world [demo_key \<mapsto> ''0ld53cr3t''])))
         ''0xTab1e'' (Some ''0xAbC'') 7 = ''0ld53cr3t''"
  by (simp add: request_defs demo_getSecretStorageKey)

text \<open>
  C3, amended: whenever the request-cards action runs and the generated secret \<open>S\<close> is not
  empty (it never is with \<open>window.crypto\<close>), the action computes \<open>C\<close>, the commitment codec
  applied to \<open>S\<close>, and ends by invoking the collaborator's commit action with \<open>C\<close>. When a
  storage key can be derived and \<open>localStorage\<close> takes the write, \<open>S\<close> is stored under that
  key, replacing whatever was there, before the commit action is invoked. Otherwise
  nothing is stored, the store is as before, and the commit action is invoked all the
  same.
\<close>

theorem handleRequestCards_sequence:
  assumes "generateSecret b rnd = Inr S" and "S \<noteq> []"
  shows "\<exists>C w'. hashSecretToBytes S = Some C
           \<and> handleRequestCards b rnd t p h w = (Inr (), w')
           \<and> (case getSecretStorageKey t p h of
                Some k \<Rightarrow>
                  if \<not> storage_denied b \<and> \<not> quota_exceeded b
                  then localStorage w' = (localStorage w)(k \<mapsto> S)
                       \<and> journal w' = journal w @ [Stored k S, Invoked (submitCommit t C)]
                  else localStorage w' = localStorage w
                       \<and> journal w' = journal w @ [Invoked (submitCommit t C)]
              | None \<Rightarrow>
                  localStorage w' = localStorage w
                  \<and> journal w' = journal w @ [Invoked (submitCommit t C)])"
  using assms generateSecret_Inr_window [OF assms(1)]
  by (simp add: handleRequestCards_unfold hashSecretToBytes_def invoke_def saveSecret_def
        localStorage_setItem_def split: option.splits)

theorem handleRequestCards_sequence_witness:
  "\<exists>C w'. hashSecretToBytes ''k3x9q7m2'' = Some C
      \<and> handleRequestCards demo_browser demo_entropy ''0xTab1e'' (Some ''0xAbC'') 7
           (demo_world [demo_key \<mapsto> ''0ld53cr3t'']) = (Inr (), w')
      \<and> localStorage w' = [demo_key \<mapsto> ''k3x9q7m2'']
      \<and> journal w' = [Stored demo_key ''k3x9q7m2'', Invoked (submitCommit ''0xTab1e'' C)]"
  using handleRequestCards_sequence [OF demo_generateSecret, of "''0xTab1e''" "Some ''0xAbC''" 7
          "demo_world [demo_key \<mapsto> ''0ld53cr3t'']"]
  by (simp add: demo_getSecretStorageKey demo_browser_def demo_world_def)

section \<open>Progress and polling\<close>

text \<open>
  C8: the progress denominator \<open>totalPlayers\<close> is the length of the participant list, else
  the committed count when the list is empty, else 1; it is never zero, it is 1 for an
  empty list with no commits, and the progress ratio is never a division by zero.
\<close>

theorem totalPlayers_denominator:
  "totalPlayers s =
     (if playersInHand s \<noteq> [] then length (playersInHand s)
      else if committedCount s \<noteq> 0 then committedCount s else 1)
   \<and> 0 < totalPlayers s
   \<and> (playersInHand s = [] \<and> committedCount s = 0 \<longrightarrow> totalPlayers s = 1)
   \<and> progress_percent s \<noteq> None"
  by (simp add: totalPlayers_def or_else_def progress_percent_def Let_def)

theorem totalPlayers_denominator_witness:
  "playersInHand (unmounted (demo_props COMMIT 7) (demo_world Map.empty)) = []
   \<and> committedCount (unmounted (demo_props COMMIT 7) (demo_world Map.empty)) = 0
   \<and> totalPlayers (unmounted (demo_props COMMIT 7) (demo_world Map.empty)) = 1"
  using totalPlayers_denominator [of "unmounted (demo_props COMMIT 7) (demo_world Map.empty)"]
  by (simp add: unmounted_def committedCount_def)

text \<open>
  C6: \<open>fetchStatus\<close> always returns normally; when any of the three queries failed, the
  cached commit bits, reveal bits and participant list are all as before, and when all
  three succeeded, all three are replaced together.
\<close>

theorem fetchStatus_all_or_nothing:
  "\<exists>s'. fetchStatus c r p s = Inr s'
     \<and> (isl c \<or> isl r \<or> isl p \<longrightarrow>
          commitStatus s' = commitStatus s \<and> revealStatus s' = revealStatus s
          \<and> playersInHand s' = playersInHand s)
     \<and> (\<not> isl c \<and> \<not> isl r \<and> \<not> isl p \<longrightarrow>
          commitStatus s' = projr c \<and> revealStatus s' = projr r \<and> playersInHand s' = projr p)"
  by (cases c; cases r; cases p) (simp_all add: fetchStatus_def Promise_all3_def)

theorem fetchStatus_all_or_nothing_witness:
  "isl (Inl (Error ''rpc'') :: js_error + bool list)
   \<and> (\<exists>s'. fetchStatus (Inr [True, False]) (Inl (Error ''rpc'')) (Inr [0, 2])
              (unmounted (demo_props COMMIT 7) (demo_world Map.empty)) = Inr s'
            \<and> commitStatus s' = [] \<and> revealStatus s' = [] \<and> playersInHand s' = [])"
  using fetchStatus_all_or_nothing
          [of "Inr [True, False]" "Inl (Error ''rpc'')" "Inr [0, 2]"
              "unmounted (demo_props COMMIT 7) (demo_world Map.empty)"]
  by (simp add: unmounted_def)

section \<open>What each event does to the marker, the timer and the journal\<close>

lemma runLifecycleAction_fields:
  "autoRevealTriggeredRef (runLifecycleAction act n s) = autoRevealTriggeredRef s"
  "autoReveal_timeout (runLifecycleAction act n s) = autoReveal_timeout s"
  "autoReveal_deps (runLifecycleAction act n s) = autoReveal_deps s"
  "storedSecret_memo (runLifecycleAction act n s) = storedSecret_memo s"
  "props (runLifecycleAction act n s) = props s"
  "commitStatus (runLifecycleAction act n s) = commitStatus s"
  "revealStatus (runLifecycleAction act n s) = revealStatus s"
  "playersInHand (runLifecycleAction act n s) = playersInHand s"
  "journal (world (runLifecycleAction act n s)) = journal (snd (act (world s)))"
  "localStorage (world (runLifecycleAction act n s)) = localStorage (snd (act (world s)))"
  by (simp_all add: runLifecycleAction_def runLifecycleAction_catch_def Let_def
        split: prod.splits sum.splits)

lemma runLifecycleAction_activeAction:
  "activeAction (runLifecycleAction act n s) = None \<or> activeAction (runLifecycleAction act n s) = Some n"
  by (simp add: runLifecycleAction_def runLifecycleAction_catch_def Let_def
        split: prod.splits sum.splits)

lemma journal_invoke: "journal (snd (invoke c w)) = journal w @ [Invoked c]"
  by (simp add: invoke_def)

lemma saveSecret_reveals:
  "filter is_reveal (journal (saveSecret b t p h x w)) = filter is_reveal (journal w)"
  by (simp add: saveSecret_def localStorage_setItem_def localStorage_removeItem_def is_reveal_def
        split: option.splits)

lemma handleRequestCards_reveals:
  "filter is_reveal (journal (snd (handleRequestCards b rnd t p h w))) = filter is_reveal (journal w)"
  by (simp add: handleRequestCards_def Let_def invoke_def saveSecret_reveals is_reveal_def
        split: sum.splits option.splits)

lemma handle_ref: "autoRevealTriggeredRef (handle b e s) = autoRevealTriggeredRef s"
  by (cases e)
     (simp_all add: fetchStatus_def Promise_all3_def timeout_callback_def runLifecycleAction_fields
        runLifecycleAction_resume_def runLifecycleAction_catch_def Let_def click_startHand_def
        click_requestCards_def click_sitToggle_def click_leaveTable_def click_leaveAfterHand_def
        split: sum.splits option.splits prod.splits)

lemma handle_timeout:
  "autoReveal_timeout (handle b e s) = (if e = Timeout_elapsed then None else autoReveal_timeout s)"
  by (cases e)
     (simp_all add: fetchStatus_def Promise_all3_def timeout_callback_def runLifecycleAction_fields
        runLifecycleAction_resume_def runLifecycleAction_catch_def Let_def click_startHand_def
        click_requestCards_def click_sitToggle_def click_leaveTable_def click_leaveAfterHand_def
        split: sum.splits option.splits prod.splits)

lemma handle_deps: "autoReveal_deps (handle b e s) = autoReveal_deps s"
  by (cases e)
     (simp_all add: fetchStatus_def Promise_all3_def timeout_callback_def runLifecycleAction_fields
        runLifecycleAction_resume_def runLifecycleAction_catch_def Let_def click_startHand_def
        click_requestCards_def click_sitToggle_def click_leaveTable_def click_leaveAfterHand_def
        split: sum.splits option.splits prod.splits)

lemma handle_memo: "storedSecret_memo (handle b e s) = storedSecret_memo s"
  by (cases e)
     (simp_all add: fetchStatus_def Promise_all3_def timeout_callback_def runLifecycleAction_fields
        runLifecycleAction_resume_def runLifecycleAction_catch_def Let_def click_startHand_def
        click_requestCards_def click_sitToggle_def click_leaveTable_def click_leaveAfterHand_def
        split: sum.splits option.splits prod.splits)

lemma handle_handNumber:
  "handNumber (handle b e s) = (case e of Props p \<Rightarrow> props_handNumber p | _ \<Rightarrow> handNumber s)"
  by (cases e)
     (simp_all add: handNumber_def props_handNumber_def fetchStatus_def Promise_all3_def
        timeout_callback_def runLifecycleAction_fields
        runLifecycleAction_resume_def runLifecycleAction_catch_def Let_def click_startHand_def
        click_requestCards_def click_sitToggle_def click_leaveTable_def click_leaveAfterHand_def
        split: sum.splits option.splits prod.splits)

lemma handle_reveal_count:
  "reveal_count (handle b e s) =
     reveal_count s + (if e = Timeout_elapsed then pending s else 0)"
  by (cases e)
     (simp_all add: reveal_count_def pending_def fetchStatus_def Promise_all3_def
        timeout_callback_def runLifecycleAction_fields journal_invoke handleRequestCards_reveals
        is_reveal_def
        runLifecycleAction_resume_def runLifecycleAction_catch_def Let_def click_startHand_def
        click_requestCards_def click_sitToggle_def click_leaveTable_def click_leaveAfterHand_def
        split: sum.splits option.splits prod.splits)


lemma useMemo_fields:
  "autoRevealTriggeredRef (useMemo_storedSecret b s) = autoRevealTriggeredRef s"
  "autoReveal_timeout (useMemo_storedSecret b s) = autoReveal_timeout s"
  "autoReveal_deps (useMemo_storedSecret b s) = autoReveal_deps s"
  "props (useMemo_storedSecret b s) = props s"
  "activeAction (useMemo_storedSecret b s) = activeAction s"
  "commitStatus (useMemo_storedSecret b s) = commitStatus s"
  "revealStatus (useMemo_storedSecret b s) = revealStatus s"
  "playersInHand (useMemo_storedSecret b s) = playersInHand s"
  "world (useMemo_storedSecret b s) = world s"
  by (simp_all add: useMemo_storedSecret_def Let_def split: option.splits)

lemma useMemo_derived:
  "handNumber (useMemo_storedSecret b s) = handNumber s"
  "playerAddress (useMemo_storedSecret b s) = playerAddress s"
  "playerHandIdx (useMemo_storedSecret b s) = playerHandIdx s"
  "hasRevealed (useMemo_storedSecret b s) = hasRevealed s"
  "reveal_count (useMemo_storedSecret b s) = reveal_count s"
  by (simp_all add: handNumber_def playerAddress_def playerHandIdx_def hasRevealed_def
        reveal_count_def useMemo_fields cong: option.case_cong)

lemma effect_fields:
  "props (autoReveal_effect s) = props s"
  "activeAction (autoReveal_effect s) = activeAction s"
  "commitStatus (autoReveal_effect s) = commitStatus s"
  "revealStatus (autoReveal_effect s) = revealStatus s"
  "playersInHand (autoReveal_effect s) = playersInHand s"
  "storedSecret_memo (autoReveal_effect s) = storedSecret_memo s"
  "world (autoReveal_effect s) = world s"
  by (simp_all add: autoReveal_effect_def Let_def)

lemma effect_derived:
  "handNumber (autoReveal_effect s) = handNumber s"
  "playerAddress (autoReveal_effect s) = playerAddress s"
  "storedSecret (autoReveal_effect s) = storedSecret s"
  "playerHandIdx (autoReveal_effect s) = playerHandIdx s"
  "hasRevealed (autoReveal_effect s) = hasRevealed s"
  "reveal_count (autoReveal_effect s) = reveal_count s"
  by (simp_all add: handNumber_def playerAddress_def storedSecret_def playerHandIdx_def
        hasRevealed_def reveal_count_def effect_fields cong: option.case_cong)

lemma render_derived:
  "handNumber (render b s) = handNumber s"
  "reveal_count (render b s) = reveal_count s"
  "world (render b s) = world s"
  "props (render b s) = props s"
  "activeAction (render b s) = activeAction s"
  "playerAddress (render b s) = playerAddress s"
  "hasRevealed (render b s) = hasRevealed s"
  by (simp_all add: render_def effect_derived effect_fields useMemo_derived useMemo_fields)

text \<open>The effect either leaves marker and timer alone, or clears the timer, or arms.\<close>

lemma effect_cases:
  "(autoRevealTriggeredRef (autoReveal_effect s) = autoRevealTriggeredRef s
      \<and> (autoReveal_timeout (autoReveal_effect s) = autoReveal_timeout s
          \<or> autoReveal_timeout (autoReveal_effect s) = None))
   \<or> (autoRevealTriggeredRef s \<noteq> handNumber s
       \<and> activeAction s = None \<and> storedSecret s \<noteq> []
       \<and> autoRevealTriggeredRef (autoReveal_effect s) = handNumber s
       \<and> autoReveal_timeout (autoReveal_effect s) \<noteq> None)"
  by (simp add: autoReveal_effect_def autoReveal_condition_def Let_def handNumber_def
        storedSecret_def playerHandIdx_def hasRevealed_def)

lemma render_cases:
  "(autoRevealTriggeredRef (render b s) = autoRevealTriggeredRef s
      \<and> (autoReveal_timeout (render b s) = autoReveal_timeout s
          \<or> autoReveal_timeout (render b s) = None))
   \<or> (autoRevealTriggeredRef s \<noteq> handNumber s
       \<and> activeAction s = None \<and> storedSecret (render b s) \<noteq> []
       \<and> autoRevealTriggeredRef (render b s) = handNumber s
       \<and> autoReveal_timeout (render b s) \<noteq> None)"
  using effect_cases [of "useMemo_storedSecret b s"]
  by (simp add: render_def useMemo_fields useMemo_derived effect_derived)

lemma render_potential:
  assumes "handNumber s = h"
  shows "pending (render b s) + unmarked h (render b s) \<le> pending s + unmarked h s"
proof -
  consider
    (keep) "autoRevealTriggeredRef (render b s) = autoRevealTriggeredRef s"
           "autoReveal_timeout (render b s) = autoReveal_timeout s
            \<or> autoReveal_timeout (render b s) = None"
  | (arm) "autoRevealTriggeredRef s \<noteq> handNumber s"
          "autoRevealTriggeredRef (render b s) = handNumber s"
    using render_cases [of b s] by argo
  then show ?thesis
  proof cases
    case keep
    from keep(2) have "pending (render b s) \<le> pending s"
      by (auto simp add: pending_def)
    with keep(1) show ?thesis by (simp add: unmarked_def)
  next
    case arm
    with assms have "unmarked h s = 1" and "unmarked h (render b s) = 0"
      by (simp_all add: unmarked_def)
    moreover have "pending (render b s) \<le> 1" by (simp add: pending_def)
    ultimately show ?thesis by simp
  qed
qed

lemma step_potential:
  assumes "handNumber s = h" and "keeps_hand h e"
  shows "reveal_count (step b s e) + pending (step b s e) + unmarked h (step b s e)
         \<le> reveal_count s + pending s + unmarked h s"
proof -
  have hn: "handNumber (handle b e s) = h"
    using assms by (auto simp add: handle_handNumber split: event.splits)
  have "pending (handle b e s) + unmarked h (handle b e s) + reveal_count (handle b e s)
        = pending s + unmarked h s + reveal_count s"
    by (simp add: pending_def unmarked_def handle_timeout handle_ref handle_reveal_count)
  with render_potential [OF hn, of b] show ?thesis
    by (simp add: step_def render_derived)
qed

lemma step_handNumber:
  assumes "handNumber s = h" and "keeps_hand h e"
  shows "handNumber (step b s e) = h"
  using assms by (auto simp add: step_def render_derived handle_handNumber split: event.splits)

lemma run_potential:
  assumes "handNumber s = h" and "\<forall>e\<in>set evs. keeps_hand h e"
  shows "reveal_count (run b s evs) + pending (run b s evs) + unmarked h (run b s evs)
         \<le> reveal_count s + pending s + unmarked h s"
  using assms
proof (induction evs arbitrary: s)
  case Nil
  then show ?case by simp
next
  case (Cons e evs)
  have "handNumber (step b s e) = h"
    using Cons.prems by (simp add: step_handNumber)
  from Cons.IH [OF this] Cons.prems step_potential [of s h e b] show ?case
    by simp
qed

lemma settled_effect: "settled (autoReveal_effect s)"
proof (cases "autoReveal_deps s = Some (phase (gameState (props s)), storedSecret s, playerHandIdx s, hasRevealed s, handNumber s)")
  case True
  then have "autoReveal_effect s = s"
    by (simp add: autoReveal_effect_def Let_def)
  with True show ?thesis by (simp add: settled_def)
next
  case False
  have "autoReveal_deps (autoReveal_effect s) = Some (phase (gameState (props s)), storedSecret s, playerHandIdx s, hasRevealed s, handNumber s)"
    using False by (simp add: autoReveal_effect_def Let_def)
  then show ?thesis
    by (simp add: settled_def effect_derived effect_fields)
qed

lemma settled_render: "settled (render b s)"
  by (simp add: render_def settled_effect)

lemma timer_marked_step:
  assumes "settled s" and "timer_marked s"
  shows "timer_marked (step b s e)"
proof -
  let ?m = "useMemo_storedSecret b (handle b e s)"
  show ?thesis
  proof (cases "autoReveal_deps ?m = Some (phase (gameState (props ?m)), storedSecret ?m, playerHandIdx ?m, hasRevealed ?m, handNumber ?m)")
    case True
    then have same: "autoReveal_effect ?m = ?m"
      by (simp add: autoReveal_effect_def Let_def)
    from True assms(1) have "handNumber ?m = handNumber s"
      by (simp add: settled_def useMemo_fields handle_deps)
    with assms(2) same show ?thesis
      by (auto simp add: timer_marked_def step_def render_def useMemo_fields useMemo_derived
            handle_timeout handle_ref)
  next
    case False
    then show ?thesis
      by (simp add: timer_marked_def step_def render_def autoReveal_effect_def Let_def
            handNumber_def)
  qed
qed

lemma timer_marked_mount: "timer_marked (mount b p w)"
  by (simp add: timer_marked_def mount_def render_def autoReveal_effect_def Let_def
        useMemo_fields unmounted_def handNumber_def)

lemma consistent_run:
  assumes "settled s" and "timer_marked s"
  shows "settled (run b s evs) \<and> timer_marked (run b s evs)"
  using assms
proof (induction evs arbitrary: s)
  case Nil
  then show ?case by simp
next
  case (Cons e evs)
  have "settled (step b s e)" by (simp add: step_def settled_render)
  moreover have "timer_marked (step b s e)" using Cons.prems by (rule timer_marked_step)
  ultimately show ?case using Cons.IH by simp
qed

section \<open>The auto-reveal trigger\<close>

text \<open>
  C4: in a mounted panel, from any state it has reached, as long as the hand number stays
  \<open>h\<close>, the collaborator's reveal action is invoked at most once, whatever events follow
  (renders with any phase, secret and reveal state, polls, elapsed timeouts, settled
  actions, clicks) and however often.
\<close>

theorem auto_reveal_at_most_once:
  assumes "handNumber (run b (mount b p w) before) = h"
      and "\<forall>e\<in>set evs. keeps_hand h e"
  shows "reveal_count (run b (run b (mount b p w) before) evs)
         \<le> reveal_count (run b (mount b p w) before) + 1"
proof -
  let ?s = "run b (mount b p w) before"
  have "timer_marked ?s"
    using consistent_run [of "mount b p w" b before]
    by (simp add: mount_def settled_render timer_marked_mount [unfolded mount_def])
  then have "pending ?s + unmarked h ?s \<le> 1"
    using assms(1) by (auto simp add: timer_marked_def pending_def unmarked_def)
  with run_potential [OF assms, of b] show ?thesis by simp
qed

theorem auto_reveal_at_most_once_witness:
  "reveal_count
     (run demo_browser
        (run demo_browser (mount demo_browser (demo_props REVEAL 7) (demo_world [demo_key \<mapsto> ''s3cr3t'']))
           [Poll_settled (Inr [True]) (Inr [False]) (Inr [2])])
        [Timeout_elapsed, Action_settled Reveal (Inl (Error ''rejected'')) (Inr ()),
         Props (demo_props PREFLOP 7), Props (demo_props REVEAL 7), Timeout_elapsed]) = 1
   \<and> reveal_count
        (run demo_browser (mount demo_browser (demo_props REVEAL 7) (demo_world [demo_key \<mapsto> ''s3cr3t'']))
           [Poll_settled (Inr [True]) (Inr [False]) (Inr [2])]) = 0"
proof -
  let ?s = "run demo_browser (mount demo_browser (demo_props REVEAL 7) (demo_world [demo_key \<mapsto> ''s3cr3t'']))
              [Poll_settled (Inr [True]) (Inr [False]) (Inr [2])]"
  let ?evs = "[Timeout_elapsed, Action_settled Reveal (Inl (Error ''rejected'')) (Inr ()),
               Props (demo_props PREFLOP 7), Props (demo_props REVEAL 7), Timeout_elapsed]"
  have hand: "handNumber ?s = 7"
    by (simp add: panel_defs demo_defs demo_getSecretStorageKey)
  have keep: "\<forall>e\<in>set ?evs. keeps_hand 7 e"
    by (simp add: props_handNumber_def demo_props_def)
  have zero: "reveal_count ?s = 0"
    by (simp add: panel_defs demo_defs demo_getSecretStorageKey)
  have "1 \<le> reveal_count (run demo_browser ?s ?evs)"
    by (simp add: panel_defs demo_defs demo_getSecretStorageKey)
  with auto_reveal_at_most_once [OF hand keep] zero show ?thesis by simp
qed

lemma quiet_step:
  assumes "quiet h s" and "keeps_hand h e"
  shows "quiet h (step b s e) \<and> reveal_count (step b s e) = reveal_count s"
proof -
  have hn: "handNumber (handle b e s) = h"
    using assms by (auto simp add: quiet_def handle_handNumber split: event.splits)
  have t: "autoReveal_timeout (handle b e s) = None"
    using assms(1) by (simp add: quiet_def handle_timeout)
  have r: "autoRevealTriggeredRef (handle b e s) = h"
    using assms(1) by (simp add: quiet_def handle_ref)
  have c: "reveal_count (handle b e s) = reveal_count s"
    using assms(1) by (simp add: quiet_def handle_reveal_count pending_def)
  from render_cases [of b "handle b e s"] hn t r c show ?thesis
    by (auto simp add: quiet_def step_def render_derived)
qed

lemma quiet_run:
  assumes "quiet h s" and "\<forall>e\<in>set evs. keeps_hand h e"
  shows "quiet h (run b s evs) \<and> reveal_count (run b s evs) = reveal_count s"
  using assms
proof (induction evs arbitrary: s)
  case Nil
  then show ?case by simp
next
  case (Cons e evs)
  from quiet_step [of h s e b] Cons.prems
  have "quiet h (step b s e)" and "reveal_count (step b s e) = reveal_count s"
    by simp_all
  with Cons.IH [of "step b s e"] Cons.prems show ?case by simp
qed

lemma quiet_mount_zero:
  assumes "props_handNumber p = 0"
  shows "quiet 0 (mount b p w)"
proof -
  have "handNumber (unmounted p w) = 0" "autoRevealTriggeredRef (unmounted p w) = 0"
       "autoReveal_timeout (unmounted p w) = None"
    using assms by (simp_all add: unmounted_def handNumber_def props_handNumber_def)
  with render_cases [of b "unmounted p w"] show ?thesis
    by (auto simp add: quiet_def mount_def render_derived)
qed

text \<open>
  C9: a panel mounted with hand number 0 (also the default without table state) never
  invokes the reveal action automatically while the hand number stays 0: the marker
  starts at 0, equals the hand number, and the timer is never armed.
\<close>

theorem hand_zero_never_auto_reveals:
  assumes "props_handNumber p = 0" and "\<forall>e\<in>set evs. keeps_hand 0 e"
  shows "reveal_count (run b (mount b p w) evs) = length (filter is_reveal (journal w))
         \<and> autoReveal_timeout (run b (mount b p w) evs) = None
         \<and> autoRevealTriggeredRef (run b (mount b p w) evs) = 0"
proof -
  have "reveal_count (mount b p w) = length (filter is_reveal (journal w))"
    by (simp add: mount_def render_derived reveal_count_def unmounted_def)
  with quiet_run [OF quiet_mount_zero [OF assms(1)] assms(2)] show ?thesis
    by (simp add: quiet_def)
qed

theorem hand_zero_never_auto_reveals_witness:
  "autoReveal_condition
     ((run demo_browser (mount demo_browser (demo_props REVEAL 0) (demo_world [demo_key0 \<mapsto> ''s3cr3t'']))
        [Poll_settled (Inr [True]) (Inr [False]) (Inr [2]), Timeout_elapsed])
      \<lparr>autoRevealTriggeredRef := 1\<rparr>)
   \<and> reveal_count
       (run demo_browser (mount demo_browser (demo_props REVEAL 0) (demo_world [demo_key0 \<mapsto> ''s3cr3t'']))
          [Poll_settled (Inr [True]) (Inr [False]) (Inr [2]), Timeout_elapsed]) = 0"
proof -
  let ?evs = "[Poll_settled (Inr [True]) (Inr [False]) (Inr [2]), Timeout_elapsed]"
  have zero: "props_handNumber (demo_props REVEAL 0) = 0"
    by (simp add: props_handNumber_def demo_props_def)
  have keep: "\<forall>e\<in>set ?evs. keeps_hand 0 e"
    by simp
  have "autoReveal_condition
     ((run demo_browser (mount demo_browser (demo_props REVEAL 0) (demo_world [demo_key0 \<mapsto> ''s3cr3t''])) ?evs)
      \<lparr>autoRevealTriggeredRef := 1\<rparr>)"
    by (simp add: panel_defs demo_defs demo_getSecretStorageKey0)
  with hand_zero_never_auto_reveals [OF zero keep, of demo_browser "demo_world [demo_key0 \<mapsto> ''s3cr3t'']"]
  show ?thesis by (simp add: demo_world_def)
qed

lemma step_arms:
  assumes "autoReveal_timeout s = None" and "autoReveal_timeout (step b s e) \<noteq> None"
  shows "autoRevealTriggeredRef (step b s e) = handNumber (step b s e)"
proof -
  have "autoReveal_timeout (handle b e s) = None"
    using assms(1) by (simp add: handle_timeout)
  with render_cases [of b "handle b e s"] assms(2) show ?thesis
    by (auto simp add: step_def render_derived)
qed

lemma step_not_armed:
  assumes "autoReveal_timeout (step b s e) = None"
  shows "autoRevealTriggeredRef (step b s e) = autoRevealTriggeredRef s"
  using render_cases [of b "handle b e s"] assms
  by (auto simp add: step_def handle_ref)

text \<open>
  C10: an event that arms the timer sets the marker to the current hand number \<open>h\<close> at once,
  while the timeout is still pending. If the next event is not the timeout and leaves no
  timeout pending (the clean-up cancelled it), then as long as the hand number stays \<open>h\<close>
  the reveal action is not invoked and the timer is not armed again, whatever follows.
\<close>

theorem cancelled_timer_disables_hand:
  assumes "autoReveal_timeout s = None"
      and "autoReveal_timeout (step b s arm) \<noteq> None"
      and "handNumber (step b s arm) = h"
      and "cancel \<noteq> Timeout_elapsed" and "keeps_hand h cancel"
      and "autoReveal_timeout (step b (step b s arm) cancel) = None"
      and "\<forall>e\<in>set evs. keeps_hand h e"
  shows "autoRevealTriggeredRef (step b s arm) = h
         \<and> reveal_count (run b (step b (step b s arm) cancel) evs) = reveal_count (step b s arm)
         \<and> autoReveal_timeout (run b (step b (step b s arm) cancel) evs) = None
         \<and> autoRevealTriggeredRef (run b (step b (step b s arm) cancel) evs) = h"
proof -
  let ?s1 = "step b s arm" and ?s2 = "step b (step b s arm) cancel"
  have r1: "autoRevealTriggeredRef ?s1 = h"
    using step_arms [OF assms(1,2)] assms(3) by simp
  have r2: "autoRevealTriggeredRef ?s2 = h"
    using step_not_armed [OF assms(6)] r1 by simp
  have h2: "handNumber ?s2 = h"
    using assms(3,5) by (rule step_handNumber)
  have c2: "reveal_count ?s2 = reveal_count ?s1"
    using assms(4) by (simp add: step_def render_derived handle_reveal_count)
  have "quiet h ?s2"
    using r2 h2 assms(6) by (simp add: quiet_def)
  from quiet_run [OF this assms(7), of b] r1 c2 show ?thesis
    by (simp add: quiet_def)
qed

theorem cancelled_timer_disables_hand_witness:
  "autoReveal_timeout
     (step demo_browser
        (mount demo_browser (demo_props REVEAL 7) (demo_world [demo_key \<mapsto> ''s3cr3t'']))
        (Poll_settled (Inr [True]) (Inr [False]) (Inr [2])))
     = Some (''0xTab1e'', ''s3cr3t'')
   \<and> autoRevealTriggeredRef
       (step demo_browser
          (mount demo_browser (demo_props REVEAL 7) (demo_world [demo_key \<mapsto> ''s3cr3t'']))
          (Poll_settled (Inr [True]) (Inr [False]) (Inr [2]))) = 7
   \<and> autoReveal_condition
       ((run demo_browser
          (step demo_browser
            (step demo_browser
              (mount demo_browser (demo_props REVEAL 7) (demo_world [demo_key \<mapsto> ''s3cr3t'']))
              (Poll_settled (Inr [True]) (Inr [False]) (Inr [2])))
            (Props (demo_props COMMIT 7)))
          [Props (demo_props REVEAL 7), Timeout_elapsed])\<lparr>autoRevealTriggeredRef := 0\<rparr>)
   \<and> reveal_count
       (run demo_browser
          (step demo_browser
            (step demo_browser
              (mount demo_browser (demo_props REVEAL 7) (demo_world [demo_key \<mapsto> ''s3cr3t'']))
              (Poll_settled (Inr [True]) (Inr [False]) (Inr [2])))
            (Props (demo_props COMMIT 7)))
          [Props (demo_props REVEAL 7), Timeout_elapsed]) = 0"
proof -
  let ?s = "mount demo_browser (demo_props REVEAL 7) (demo_world [demo_key \<mapsto> ''s3cr3t''])"
  let ?arm = "Poll_settled (Inr [True]) (Inr [False]) (Inr [2])"
  let ?cancel = "Props (demo_props COMMIT 7)"
  let ?evs = "[Props (demo_props REVEAL 7), Timeout_elapsed]"
  have a1: "autoReveal_timeout ?s = None"
    by (simp add: panel_defs demo_defs demo_getSecretStorageKey)
  have a2: "autoReveal_timeout (step demo_browser ?s ?arm) = Some (''0xTab1e'', ''s3cr3t'')"
    by (simp add: panel_defs demo_defs demo_getSecretStorageKey)
  then have a2': "autoReveal_timeout (step demo_browser ?s ?arm) \<noteq> None" by simp
  have a3: "handNumber (step demo_browser ?s ?arm) = 7"
    by (simp add: panel_defs demo_defs demo_getSecretStorageKey)
  have a4: "?cancel \<noteq> Timeout_elapsed" by simp
  have a5: "keeps_hand 7 ?cancel"
    by (simp add: props_handNumber_def demo_props_def)
  have a6: "autoReveal_timeout (step demo_browser (step demo_browser ?s ?arm) ?cancel) = None"
    by (simp add: panel_defs demo_defs demo_getSecretStorageKey)
  have a7: "\<forall>e\<in>set ?evs. keeps_hand 7 e"
    by (simp add: props_handNumber_def demo_props_def)
  have before: "reveal_count (step demo_browser ?s ?arm) = 0"
    by (simp add: panel_defs demo_defs demo_getSecretStorageKey)
  have again: "autoReveal_condition
       ((run demo_browser (step demo_browser (step demo_browser ?s ?arm) ?cancel) ?evs)
        \<lparr>autoRevealTriggeredRef := 0\<rparr>)"
    by (simp add: panel_defs demo_defs demo_getSecretStorageKey)
  from cancelled_timer_disables_hand [OF a1 a2' a3 a4 a5 a6 a7] a2 before again
  show ?thesis by simp
qed

section \<open>The REVEAL phase without a stored secret\<close>

text \<open>
  After any event, the secret the panel holds is the one it held before, or the one the
  store now has under the current key.
\<close>

lemma useMemo_storedSecret_value:
  "storedSecret (useMemo_storedSecret b s) = storedSecret s
   \<or> storedSecret (useMemo_storedSecret b s)
       = loadStoredSecret b (world s) (tableAddress (props s)) (playerAddress s) (handNumber s)"
  by (simp add: useMemo_storedSecret_def storedSecret_def Let_def split: option.splits)

lemma useMemo_storedSecret_new_key:
  assumes "case storedSecret_memo s of
             None \<Rightarrow> True
           | Some (k, v) \<Rightarrow> k \<noteq> (tableAddress (props s), playerAddress s, handNumber s)"
  shows "storedSecret (useMemo_storedSecret b s)
           = loadStoredSecret b (world s) (tableAddress (props s)) (playerAddress s) (handNumber s)"
  using assms
  by (auto simp add: useMemo_storedSecret_def storedSecret_def Let_def split: option.splits)

lemma render_storedSecret:
  "storedSecret (render b s) = storedSecret (useMemo_storedSecret b s)"
  by (simp add: render_def effect_derived)

lemma secret_absent_render: "secret_absent b (render b s) = secret_absent b s"
  by (simp add: secret_absent_def render_derived)

lemma step_storedSecret:
  "storedSecret (step b s e) = storedSecret s
   \<or> storedSecret (step b s e)
       = loadStoredSecret b (world (step b s e)) (tableAddress (props (step b s e)))
           (playerAddress (step b s e)) (handNumber (step b s e))"
proof -
  have "storedSecret (handle b e s) = storedSecret s"
    by (simp add: storedSecret_def handle_memo)
  with useMemo_storedSecret_value [of b "handle b e s"] show ?thesis
    by (simp add: step_def render_storedSecret render_derived)
qed

text \<open>
  Where the store has nothing under the current key, the panel holds nothing either: at
  its mount, after an event that changed the key, and after any event when it held
  nothing before.
\<close>

lemma storedSecret_mount_absent:
  assumes "secret_absent b (mount b p w)"
  shows "storedSecret (mount b p w) = []"
proof -
  have "storedSecret (useMemo_storedSecret b (unmounted p w))
          = loadStoredSecret b (world (unmounted p w)) (tableAddress (props (unmounted p w)))
              (playerAddress (unmounted p w)) (handNumber (unmounted p w))"
    by (rule useMemo_storedSecret_new_key) (simp add: unmounted_def)
  with assms show ?thesis
    unfolding mount_def secret_absent_render
    by (simp add: secret_absent_def render_storedSecret)
qed

lemma storedSecret_step_absent:
  assumes "storedSecret s = []" and "secret_absent b (step b s e)"
  shows "storedSecret (step b s e) = []"
  using step_storedSecret [of b s e] assms by (auto simp add: secret_absent_def)

lemma storedSecret_step_new_key:
  assumes "storedSecret_memo s = Some (k, v)"
      and "k \<noteq> (tableAddress (props (step b s e)), playerAddress (step b s e), handNumber (step b s e))"
      and "secret_absent b (step b s e)"
  shows "storedSecret (step b s e) = []"
proof -
  let ?m = "handle b e s"
  have "storedSecret (useMemo_storedSecret b ?m)
          = loadStoredSecret b (world ?m) (tableAddress (props ?m)) (playerAddress ?m) (handNumber ?m)"
    using assms(1,2)
    by (intro useMemo_storedSecret_new_key) (simp add: handle_memo step_def render_derived)
  with assms(3) show ?thesis
    unfolding step_def secret_absent_render
    by (simp add: secret_absent_def render_storedSecret)
qed

text \<open>In every state a mounted panel reaches, a pending timeout has a secret.\<close>

lemma timer_has_secret_step:
  assumes "settled s" and "timer_has_secret s"
  shows "timer_has_secret (step b s e)"
proof -
  let ?m = "useMemo_storedSecret b (handle b e s)"
  show ?thesis
  proof (cases "autoReveal_deps ?m = Some (phase (gameState (props ?m)), storedSecret ?m, playerHandIdx ?m, hasRevealed ?m, handNumber ?m)")
    case True
    then have same: "autoReveal_effect ?m = ?m"
      by (simp add: autoReveal_effect_def Let_def)
    from True assms(1) have "storedSecret ?m = storedSecret s"
      by (simp add: settled_def useMemo_fields handle_deps)
    with assms(2) same show ?thesis
      by (auto simp add: timer_has_secret_def step_def render_def useMemo_fields handle_timeout)
  next
    case False
    then show ?thesis
      by (simp add: timer_has_secret_def step_def render_def autoReveal_effect_def
            autoReveal_condition_def Let_def storedSecret_def)
  qed
qed

lemma timer_has_secret_mount: "timer_has_secret (mount b p w)"
  using render_cases [of b "unmounted p w"]
  by (auto simp add: timer_has_secret_def mount_def unmounted_def)

lemma timer_has_secret_run:
  assumes "settled s" and "timer_has_secret s"
  shows "settled (run b s evs) \<and> timer_has_secret (run b s evs)"
  using assms
proof (induction evs arbitrary: s)
  case Nil
  then show ?case by simp
next
  case (Cons e evs)
  have "settled (step b s e)" by (simp add: step_def settled_render)
  moreover have "timer_has_secret (step b s e)" using Cons.prems by (rule timer_has_secret_step)
  ultimately show ?case using Cons.IH by simp
qed

lemma secret_missing_during_head: "secret_missing_during b s evs \<Longrightarrow> storedSecret s = []"
  by (cases evs) simp_all

lemma missing_secret_step:
  assumes "timer_has_secret s" and "storedSecret s = []"
  shows "reveal_count (step b s e) = reveal_count s"
  using assms
  by (simp add: timer_has_secret_def step_def render_derived handle_reveal_count pending_def)

lemma missing_secret_run:
  assumes "settled s" and "timer_has_secret s" and "secret_missing_during b s evs"
  shows "reveal_count (run b s evs) = reveal_count s
         \<and> timer_has_secret (run b s evs) \<and> storedSecret (run b s evs) = []"
  using assms
proof (induction evs arbitrary: s)
  case Nil
  then show ?case by simp
next
  case (Cons e evs)
  have now: "storedSecret s = []" using Cons.prems(3) by simp
  have rest: "secret_missing_during b (step b s e) evs" using Cons.prems(3) by simp
  have "settled (step b s e)" by (simp add: step_def settled_render)
  moreover have "timer_has_secret (step b s e)"
    using Cons.prems(1,2) by (rule timer_has_secret_step)
  ultimately have "reveal_count (run b (step b s e) evs) = reveal_count (step b s e)
                   \<and> timer_has_secret (run b (step b s e) evs)
                   \<and> storedSecret (run b (step b s e) evs) = []"
    using rest by (rule Cons.IH)
  with missing_secret_step [OF Cons.prems(2) now, of b e] show ?case by simp
qed

text \<open>
  C5, as the spec states it: in the REVEAL phase with no stored secret, the panel shows the
  advisory. A panel mounted in REVEAL with an empty store refutes it once a poll reports
  the player's reveal bit set (a reveal made elsewhere): the card shows the confirmation.
\<close>

theorem missing_secret_counterexample:
  "loadStoredSecret demo_browser
     (world (run demo_browser (mount demo_browser (demo_props REVEAL 7) (demo_world Map.empty))
               [Poll_settled (Inr [True]) (Inr [True]) (Inr [2])]))
     ''0xTab1e'' (Some ''0xAbC'') 7 = []
   \<and> phase (gameState (props
         (run demo_browser (mount demo_browser (demo_props REVEAL 7) (demo_world Map.empty))
            [Poll_settled (Inr [True]) (Inr [True]) (Inr [2])]))) = REVEAL
   \<and> acceptCardsCard
         (run demo_browser (mount demo_browser (demo_props REVEAL 7) (demo_world Map.empty))
            [Poll_settled (Inr [True]) (Inr [True]) (Inr [2])])
       = Some Confirmed_waiting_for_others"
  by (simp add: panel_defs demo_defs demo_getSecretStorageKey acceptCardsCard_def)

text \<open>
  C5, amended: in every state a mounted panel reaches, as long as it holds no stored
  secret for the current (table, player, hand) key, whatever events follow, the reveal
  action is never invoked automatically and no timeout is pending; and in the REVEAL
  phase the card shows the advisory "secret not found", except that it shows the
  confirmation when the cached reveal bits already mark the player as revealed, and
  otherwise the in-progress message while a reveal action started earlier is in flight.
\<close>

theorem missing_secret_in_reveal:
  assumes "secret_missing_during b (run b (mount b p w) before) evs"
  shows "reveal_count (run b (run b (mount b p w) before) evs)
           = reveal_count (run b (mount b p w) before)
         \<and> autoReveal_timeout (run b (run b (mount b p w) before) evs) = None
         \<and> (phase (gameState (props (run b (run b (mount b p w) before) evs))) = REVEAL
            \<longrightarrow> acceptCardsCard (run b (run b (mount b p w) before) evs)
                  = Some (if hasRevealed (run b (run b (mount b p w) before) evs)
                          then Confirmed_waiting_for_others
                          else if activeAction (run b (run b (mount b p w) before) evs) = Some Reveal
                          then Accepting_cards_sign_transaction
                          else Secret_not_found))"
proof -
  let ?s = "run b (mount b p w) before"
  have "settled ?s \<and> timer_has_secret ?s"
    using timer_has_secret_run [of "mount b p w" b before]
    by (simp add: mount_def settled_render timer_has_secret_mount [unfolded mount_def])
  with missing_secret_run [OF _ _ assms]
  have "reveal_count (run b ?s evs) = reveal_count ?s"
    and "timer_has_secret (run b ?s evs)" and "storedSecret (run b ?s evs) = []"
    by simp_all
  then show ?thesis
    by (simp add: timer_has_secret_def acceptCardsCard_def)
qed

theorem missing_secret_in_reveal_witness:
  "reveal_count
     (run demo_browser (mount demo_browser (demo_props REVEAL 6) (demo_world [demo_key6 \<mapsto> ''s3cr3t'']))
        [Poll_settled (Inr [True]) (Inr [False]) (Inr [2]), Timeout_elapsed,
         Action_settled Reveal (Inr ()) (Inr ()), Props (demo_props REVEAL 7)]) = 1
   \<and> reveal_count
       (run demo_browser
          (run demo_browser (mount demo_browser (demo_props REVEAL 6) (demo_world [demo_key6 \<mapsto> ''s3cr3t'']))
             [Poll_settled (Inr [True]) (Inr [False]) (Inr [2]), Timeout_elapsed,
              Action_settled Reveal (Inr ()) (Inr ()), Props (demo_props REVEAL 7)])
          [Poll_settled (Inr [True, True]) (Inr [False, False]) (Inr [0, 2]), Timeout_elapsed]) = 1
   \<and> acceptCardsCard
       (run demo_browser
          (run demo_browser (mount demo_browser (demo_props REVEAL 6) (demo_world [demo_key6 \<mapsto> ''s3cr3t'']))
             [Poll_settled (Inr [True]) (Inr [False]) (Inr [2]), Timeout_elapsed,
              Action_settled Reveal (Inr ()) (Inr ()), Props (demo_props REVEAL 7)])
          [Poll_settled (Inr [True, True]) (Inr [False, False]) (Inr [0, 2]), Timeout_elapsed])
     = Some Secret_not_found"
proof -
  let ?before = "[Poll_settled (Inr [True]) (Inr [False]) (Inr [2]), Timeout_elapsed,
                  Action_settled Reveal (Inr ()) (Inr ()), Props (demo_props REVEAL 7)]"
  let ?evs = "[Poll_settled (Inr [True, True]) (Inr [False, False]) (Inr [0, 2]), Timeout_elapsed]"
  let ?s = "run demo_browser
              (mount demo_browser (demo_props REVEAL 6) (demo_world [demo_key6 \<mapsto> ''s3cr3t''])) ?before"
  have missing: "secret_missing_during demo_browser ?s ?evs"
    by (simp add: panel_defs demo_defs demo_getSecretStorageKey demo_getSecretStorageKey6
          demo_key_def demo_key6_def)
  have earlier: "reveal_count ?s = 1"
    by (simp add: panel_defs demo_defs demo_getSecretStorageKey demo_getSecretStorageKey6
          demo_key_def demo_key6_def)
  have shown: "phase (gameState (props (run demo_browser ?s ?evs))) = REVEAL
               \<and> \<not> hasRevealed (run demo_browser ?s ?evs)
               \<and> activeAction (run demo_browser ?s ?evs) = None"
    by (simp add: panel_defs demo_defs demo_getSecretStorageKey demo_getSecretStorageKey6
          demo_key_def demo_key6_def)
  from missing_secret_in_reveal [OF missing] earlier shown show ?thesis
    by simp
qed

text \<open>
  Two runs that the statement above is shaped by. With a reveal for hand 6 still in flight
  when hand 7 arrives without a secret, the card shows the in-progress message. And the
  store alone does not decide: when the entry is removed after the panel loaded it (here
  by a request for cards whose fallback secret came out empty), the panel still holds the
  secret, shows that it is preparing, and reveals.
\<close>

lemma reveal_in_flight_example:
  "storedSecret
     (run demo_browser (mount demo_browser (demo_props REVEAL 6) (demo_world [demo_key6 \<mapsto> ''s3cr3t'']))
        [Poll_settled (Inr [True]) (Inr [False]) (Inr [2]), Timeout_elapsed,
         Props (demo_props REVEAL 7)]) = []
   \<and> acceptCardsCard
       (run demo_browser (mount demo_browser (demo_props REVEAL 6) (demo_world [demo_key6 \<mapsto> ''s3cr3t'']))
          [Poll_settled (Inr [True]) (Inr [False]) (Inr [2]), Timeout_elapsed,
           Props (demo_props REVEAL 7)])
     = Some Accepting_cards_sign_transaction"
  by (simp add: panel_defs demo_defs demo_getSecretStorageKey demo_getSecretStorageKey6
        demo_key_def demo_key6_def acceptCardsCard_def)

lemma stale_secret_example:
  "secret_absent demo_browser
     (run demo_browser (mount demo_browser (demo_props COMMIT 7) (demo_world [demo_key \<mapsto> ''s3cr3t'']))
        [Click_requestCards
           \<lparr>crypto_getRandomValues = None, math_random_36_first = ''0'', math_random_36_second = ''0''\<rparr>,
         Props (demo_props REVEAL 7), Poll_settled (Inr [True]) (Inr [False]) (Inr [2])])
   \<and> acceptCardsCard
       (run demo_browser (mount demo_browser (demo_props COMMIT 7) (demo_world [demo_key \<mapsto> ''s3cr3t'']))
          [Click_requestCards
             \<lparr>crypto_getRandomValues = None, math_random_36_first = ''0'', math_random_36_second = ''0''\<rparr>,
           Props (demo_props REVEAL 7), Poll_settled (Inr [True]) (Inr [False]) (Inr [2])])
     = Some Preparing_to_accept
   \<and> reveal_count
       (run demo_browser (mount demo_browser (demo_props COMMIT 7) (demo_world [demo_key \<mapsto> ''s3cr3t'']))
          [Click_requestCards
             \<lparr>crypto_getRandomValues = None, math_random_36_first = ''0'', math_random_36_second = ''0''\<rparr>,
           Props (demo_props REVEAL 7), Poll_settled (Inr [True]) (Inr [False]) (Inr [2]),
           Timeout_elapsed]) = 1"
  by (simp add: panel_defs click_defs demo_defs demo_getSecretStorageKey secret_absent_def
        acceptCardsCard_def isActivePlayer_def handleRequestCards_def generateSecret_def
        hashSecretToBytes_def saveSecret_def localStorage_removeItem_def localStorage_setItem_def)

section \<open>The action slot\<close>

text \<open>
  C2, as the spec states it: while one action is in flight, a second request is rejected
  inside the action-invocation path, without the collaborator call. A panel mounted in
  REVEAL with a stored secret refutes it: a poll arms the timer, the player clicks
  "Sit Out" (the slot is now held by \<open>sitout\<close>), the timeout elapses, and
  \<open>runLifecycleAction\<close> invokes the reveal action while the sit-out call is unsettled.
\<close>

theorem slot_held_counterexample:
  "activeAction
     (run demo_browser (mount demo_browser (demo_props REVEAL 7) (demo_world [demo_key \<mapsto> ''s3cr3t'']))
        [Poll_settled (Inr [True]) (Inr [False]) (Inr [2]), Click_sitToggle]) = Some Sitout
   \<and> journal (world
     (run demo_browser (mount demo_browser (demo_props REVEAL 7) (demo_world [demo_key \<mapsto> ''s3cr3t'']))
        [Poll_settled (Inr [True]) (Inr [False]) (Inr [2]), Click_sitToggle, Timeout_elapsed]))
     = [Invoked (sitOut ''0xTab1e''), Invoked (revealSecret ''0xTab1e'' (TextEncoder_encode ''s3cr3t''))]"
  by (simp add: panel_defs demo_defs demo_getSecretStorageKey)

text \<open>
  C2, amended: while an action is in flight, every button (start, request cards, sit
  toggle, leave) is disabled, so a click invokes no collaborator call and changes nothing,
  and a render does not arm the auto-reveal timer; \<open>runLifecycleAction\<close> itself makes no
  check of the slot and invokes the collaborator call whenever it is called.
\<close>

theorem slot_held_disables_affordances:
  assumes "activeAction s \<noteq> None"
  shows "(is_click e \<longrightarrow> handle b e s = s)
         \<and> (autoReveal_timeout (render b s) = None
            \<or> autoReveal_timeout (render b s) = autoReveal_timeout s)
         \<and> journal (world (runLifecycleAction (invoke c) n s)) = journal (world s) @ [Invoked c]"
proof -
  have "is_click e \<longrightarrow> handle b e s = s"
    using assms
    by (cases e)
       (auto simp add: click_startHand_def startDisabled_def click_requestCards_def
          requestCardsDisabled_def click_sitToggle_def click_leaveTable_def
          click_leaveAfterHand_def)
  moreover have "autoReveal_timeout (render b s) = None
                 \<or> autoReveal_timeout (render b s) = autoReveal_timeout s"
    using render_cases [of b s] assms by auto
  moreover have "journal (world (runLifecycleAction (invoke c) n s)) = journal (world s) @ [Invoked c]"
    by (simp add: runLifecycleAction_fields journal_invoke)
  ultimately show ?thesis by simp
qed

theorem slot_held_disables_affordances_witness:
  "activeAction (step demo_browser (mount demo_browser (demo_props WAITING 7) (demo_world Map.empty)) Click_sitToggle)
     = Some Sitout
   \<and> handle demo_browser Click_leaveTable
        (step demo_browser (mount demo_browser (demo_props WAITING 7) (demo_world Map.empty)) Click_sitToggle)
      = step demo_browser (mount demo_browser (demo_props WAITING 7) (demo_world Map.empty)) Click_sitToggle
   \<and> journal (world (handle demo_browser Click_leaveTable
        (mount demo_browser (demo_props WAITING 7) (demo_world Map.empty))))
      = [Invoked (leaveTable ''0xTab1e'')]"
proof -
  let ?s = "step demo_browser (mount demo_browser (demo_props WAITING 7) (demo_world Map.empty)) Click_sitToggle"
  have held: "activeAction ?s = Some Sitout"
    by (simp add: panel_defs demo_defs demo_getSecretStorageKey)
  then have "activeAction ?s \<noteq> None" by simp
  from slot_held_disables_affordances [OF this, of Click_leaveTable demo_browser] held
  show ?thesis
    by (simp add: panel_defs click_defs demo_defs demo_getSecretStorageKey)
qed

end
